theory Spec2Isabelle
  imports Complex_Main
begin

section \<open>The road network\<close>

text \<open>
  The generator of \<^verbatim>\<open>src/server/route-generator.py\<close> (class
  \<^verbatim>\<open>NJRouteGenerator\<close>) works on a road network that a provider hands to it.
  Nodes are OSM identifiers. An edge carries the four attributes the generator reads:
  \<^verbatim>\<open>length\<close> (metres), \<^verbatim>\<open>highway\<close> and \<^verbatim>\<open>name\<close> (absent, one string, or a
  list of strings) and \<^verbatim>\<open>maxspeed\<close>. Lengths and coordinates are Python floats; they
  are modelled as real numbers, so rounding is not part of the model.

  The only place that reads \<^verbatim>\<open>maxspeed\<close> first converts the column with
  \<^verbatim>\<open>astype(str)\<close>, and then looks for decimal digits. The field holds the string
  that the conversion gives for the edge's value, and \<open>None\<close> for an edge without the
  tag. A character of that string is either a decimal digit of any script (Unicode
  category Nd), kept as its value, or another character, kept as its code point: the
  pattern \<^verbatim>\<open>\d\<close> and the conversion to a float accept the digits of every script and
  read nothing else of a character.
\<close>

type_synonym node = nat

datatype attr = Str string | Strs "string list"

datatype digit = D0 | D1 | D2 | D3 | D4 | D5 | D6 | D7 | D8 | D9

datatype uchar = Digit digit | Other nat

record edge_data =
  elength :: real
  highway :: "attr option"
  name :: "attr option"
  maxspeed :: "uchar list option"

text \<open>
  \<^verbatim>\<open>nodes_gdf\<close> has one row per node (its identifier, then \<^verbatim>\<open>x\<close> and \<^verbatim>\<open>y\<close>);
  \<^verbatim>\<open>edges_gdf\<close> has one row per directed edge, indexed by its end points (the key that
  tells parallel edges apart is never read). The graph object and the two frames are
  views of the same data. The edge frame has a column for an attribute exactly when some
  edge carries it; in a column, an edge without the attribute has the cell NaN. Fetching the network (\<^verbatim>\<open>download_road_network\<close>) is outside
  the model: every function below takes the graph it works on.
\<close>

record graph =
  nodes_gdf :: "(node \<times> (real \<times> real)) list"
  edges_gdf :: "((node \<times> node) \<times> edge_data) list"

text \<open>
  The outcomes of a generator call. The first three are the places where the source logs
  a warning and returns \<^verbatim>\<open>None\<close>; \<open>Uncaught\<close> is an exception that no handler of
  the source catches (a key that is missing, a geometry of one point).
\<close>

datatype error = InsufficientNodes | NotFound | NoPath | Uncaught

text \<open>
  The output record: the properties and the coordinate list of the GeoJSON feature. The
  display name is kept as its prefix and its random number; the free-text description is
  left out. A property that a feature does not have is \<open>None\<close>.
\<close>

record feature =
  fname :: "string \<times> int"
  distance_km :: real
  distance_miles :: real
  roads :: "string list option"
  ftype :: string
  difficulty :: "string option"
  loop :: "bool option"
  center :: "(real \<times> real) option"
  coordinates :: "(real \<times> real) list"

section \<open>Library routines the generator calls\<close>

subsection \<open>The random source\<close>

text \<open>
  The process-wide random state is an infinite sequence of raw draws; every call consumes
  the draws it needs and returns the rest. Only which values can come out is modelled,
  not their distribution.
\<close>

type_synonym rng = "nat \<Rightarrow> nat"

definition rtl :: "rng \<Rightarrow> rng" where
  "rtl r = (\<lambda>i. r (Suc i))"

text \<open>\<^verbatim>\<open>random.choice(xs)\<close> for a list that is not empty.\<close>

definition choice :: "'a list \<Rightarrow> rng \<Rightarrow> 'a \<times> rng" where
  "choice xs r = (xs ! (r 0 mod length xs), rtl r)"

text \<open>\<^verbatim>\<open>random.randint(a, b)\<close> for \<open>a \<le> b\<close>.\<close>

definition randint :: "int \<Rightarrow> int \<Rightarrow> rng \<Rightarrow> int \<times> rng" where
  "randint a b r = (a + int (r 0 mod nat (b - a + 1)), rtl r)"

text \<open>
  \<^verbatim>\<open>random.sample(xs, k)\<close> for \<open>k \<le> length xs\<close>: \<open>k\<close> positions of the list, no
  position twice.
\<close>

fun sample :: "'a list \<Rightarrow> nat \<Rightarrow> rng \<Rightarrow> 'a list \<times> rng" where
  "sample xs 0 r = ([], r)"
| "sample xs (Suc k) r =
     (let i = r 0 mod length xs;
          (ys, r') = sample (take i xs @ drop (Suc i) xs) k (rtl r)
      in (xs ! i # ys, r'))"

subsection \<open>Graph access\<close>

text \<open>\<^verbatim>\<open>G.get_edge_data(u, v)\<close>: the data of every parallel edge from \<open>u\<close> to \<open>v\<close>.\<close>

definition get_edge_data :: "graph \<Rightarrow> node \<Rightarrow> node \<Rightarrow> edge_data list" where
  "get_edge_data G u v = map snd (filter (\<lambda>row. fst row = (u, v)) (edges_gdf G))"

text \<open>Python's \<^verbatim>\<open>min(ds, key=length)\<close>: the first of the shortest.\<close>

fun min_by_length :: "edge_data \<Rightarrow> edge_data list \<Rightarrow> edge_data" where
  "min_by_length d [] = d"
| "min_by_length d (e # es) = min_by_length (if elength e < elength d then e else d) es"

text \<open>
  \<^verbatim>\<open>ox.utils_graph.get_route_edge_attributes\<close>: for every pair of consecutive nodes of
  the route, the data of the shortest parallel edge between them. The routine raises when
  a pair has no edge (\<open>None\<close> here). This is the call with the attribute
  \<^verbatim>\<open>'length'\<close> of lines 112 and 227: the callers sum the lengths of the edges returned.
\<close>

fun get_route_edge_attributes :: "graph \<Rightarrow> node list \<Rightarrow> edge_data list option" where
  "get_route_edge_attributes G (u # v # rest) =
     (case get_edge_data G u v of
        [] \<Rightarrow> None
      | d # ds \<Rightarrow>
          (case get_route_edge_attributes G (v # rest) of
             None \<Rightarrow> None
           | Some es \<Rightarrow> Some (min_by_length d ds # es)))"
| "get_route_edge_attributes G [u] = Some []"
| "get_route_edge_attributes G [] = Some []"

text \<open>
  The call of line 139 hands the same routine the list
  \<^verbatim>\<open>['highway', 'name', 'maxspeed']\<close> as its attribute. For every pair of consecutive
  nodes the routine reads \<^verbatim>\<open>data[attribute]\<close>, and a list is not a key of a dict: the
  call raises for every route that has a pair (when the pair has no edge it has raised
  before that). A route without a pair gives the empty list.
\<close>

fun get_route_edge_attributes_keys :: "graph \<Rightarrow> node list \<Rightarrow> edge_data list option" where
  "get_route_edge_attributes_keys G (u # v # rest) = None"
| "get_route_edge_attributes_keys G [u] = Some []"
| "get_route_edge_attributes_keys G [] = Some []"

text \<open>\<^verbatim>\<open>self.nodes_gdf.loc[node]\<close>: the coordinates of a node, a KeyError if it has no row.\<close>

definition node_xy :: "graph \<Rightarrow> node \<Rightarrow> (real \<times> real) option" where
  "node_xy G n = map_of (nodes_gdf G) n"

text \<open>The loop \<^verbatim>\<open>for node in route: route_coords.append(...)\<close>.\<close>

fun route_coords :: "graph \<Rightarrow> node list \<Rightarrow> (real \<times> real) list option" where
  "route_coords G [] = Some []"
| "route_coords G (n # ns) =
     (case node_xy G n of
        None \<Rightarrow> None
      | Some p \<Rightarrow> (case route_coords G ns of None \<Rightarrow> None | Some ps \<Rightarrow> Some (p # ps)))"

text \<open>
  \<^verbatim>\<open>LineString(route_coords)\<close> followed by reading \<^verbatim>\<open>route_line.coords\<close> back: the
  same coordinates; a line of exactly one point is refused by the geometry library.
\<close>

definition line_string :: "(real \<times> real) list \<Rightarrow> (real \<times> real) list option" where
  "line_string cs = (if length cs = 1 then None else Some cs)"

text \<open>
  A Python set of hashable values is a list without duplicates; \<^verbatim>\<open>list(s)\<close> returns
  its members in an order the language leaves open, here the order of insertion.
\<close>

definition set_add :: "'a \<Rightarrow> 'a list \<Rightarrow> 'a list" where
  "set_add x s = (if x \<in> set s then s else s @ [x])"

definition set_update :: "'a list \<Rightarrow> 'a list \<Rightarrow> 'a list" where
  "set_update xs s = fold set_add xs s"

section \<open>Difficulty\<close>

text \<open>\<^verbatim>\<open>_calculate_difficulty\<close>, lines 264 to 284.\<close>

definition calculate_difficulty :: "edge_data list \<Rightarrow> string" where
  "calculate_difficulty route_edges =
     (let highway_types = map (\<lambda>edge. case highway edge of None \<Rightarrow> Str [] | Some h \<Rightarrow> h) route_edges;
          motorway_count = length (filter (\<lambda>h. h = Str ''motorway'' \<or> h = Str ''motorway_link'') highway_types);
          primary_count = length (filter (\<lambda>h. h = Str ''primary'' \<or> h = Str ''trunk'') highway_types);
          total = length highway_types
      in if total = 0 then ''medium''
         else if real motorway_count / real total > 0.5 then ''extreme''
         else if real (motorway_count + primary_count) / real total > 0.6 then ''hard''
         else if real primary_count / real total > 0.4 then ''medium''
         else ''easy'')"

text \<open>
  The classifier as the specification words it: two ratios over the sequence of highway
  classes, and four checks in order.
\<close>

definition motorwayRatio :: "attr option list \<Rightarrow> real" where
  "motorwayRatio hs =
     real (length (filter (\<lambda>h. h = Some (Str ''motorway'') \<or> h = Some (Str ''motorway_link'')) hs))
       / real (length hs)"

definition primaryRatio :: "attr option list \<Rightarrow> real" where
  "primaryRatio hs =
     real (length (filter (\<lambda>h. h = Some (Str ''primary'') \<or> h = Some (Str ''trunk'')) hs))
       / real (length hs)"

definition classify :: "attr option list \<Rightarrow> string" where
  "classify hs =
     (if length hs = 0 then ''medium''
      else if motorwayRatio hs > 0.5 then ''extreme''
      else if motorwayRatio hs + primaryRatio hs > 0.6 then ''hard''
      else if primaryRatio hs > 0.4 then ''medium''
      else ''easy'')"

section \<open>Major nodes\<close>

text \<open>
  Lines 72 to 88 of \<^verbatim>\<open>generate_scenic_route\<close>. The pattern \<^verbatim>\<open>(\d+)\<close> of
  \<^verbatim>\<open>str.extract\<close> matches the first maximal run of decimal digits of the string;
  \<^verbatim>\<open>astype(float)\<close> reads the run as a number, and a string with no digit gives NaN,
  which no comparison accepts (\<open>None\<close>).
\<close>

fun digit_value :: "digit \<Rightarrow> nat" where
  "digit_value D0 = 0"
| "digit_value D1 = 1"
| "digit_value D2 = 2"
| "digit_value D3 = 3"
| "digit_value D4 = 4"
| "digit_value D5 = 5"
| "digit_value D6 = 6"
| "digit_value D7 = 7"
| "digit_value D8 = 8"
| "digit_value D9 = 9"

definition is_digit :: "uchar \<Rightarrow> bool" where
  "is_digit c = (case c of Digit d \<Rightarrow> True | Other n \<Rightarrow> False)"

definition char_value :: "uchar \<Rightarrow> nat" where
  "char_value c = (case c of Digit d \<Rightarrow> digit_value d | Other n \<Rightarrow> 0)"

definition extract_digits :: "uchar list \<Rightarrow> uchar list" where
  "extract_digits s = takeWhile is_digit (dropWhile (\<lambda>c. \<not> is_digit c) s)"

definition decimal :: "uchar list \<Rightarrow> nat" where
  "decimal ds = foldl (\<lambda>a c. 10 * a + char_value c) 0 ds"

definition extract_speed :: "uchar list \<Rightarrow> real option" where
  "extract_speed s =
     (let ds = extract_digits s in if ds = [] then None else Some (real (decimal ds)))"

text \<open>
  The string of a cell of the \<^verbatim>\<open>maxspeed\<close> column after \<^verbatim>\<open>astype(str)\<close>: the three
  letters \<^verbatim>\<open>nan\<close> for an edge without the tag.
\<close>

definition cell_str :: "uchar list option \<Rightarrow> uchar list" where
  "cell_str c = (case c of None \<Rightarrow> [Other 110, Other 97, Other 110] | Some s \<Rightarrow> s)"

text \<open>
  The row filter. \<^verbatim>\<open>isin\<close> compares the cell with the four strings, so a cell that
  holds a list of classes, or nothing, matches none of them.
\<close>

definition major_edge :: "edge_data \<Rightarrow> bool" where
  "major_edge e =
     (highway e \<in> set (map (\<lambda>s. Some (Str s)) [''motorway'', ''trunk'', ''primary'', ''secondary''])
      \<or> (case extract_speed (cell_str (maxspeed e)) of None \<Rightarrow> False | Some v \<Rightarrow> v \<ge> 45))"

text \<open>
  \<^verbatim>\<open>self.edges_gdf['highway']\<close> and \<^verbatim>\<open>self.edges_gdf['maxspeed']\<close> look a column
  up: a KeyError when no edge carries the attribute (\<open>None\<close>).
\<close>

definition has_highway :: "graph \<Rightarrow> bool" where
  "has_highway G = list_ex (\<lambda>row. highway (snd row) \<noteq> None) (edges_gdf G)"

definition has_maxspeed :: "graph \<Rightarrow> bool" where
  "has_maxspeed G = list_ex (\<lambda>row. maxspeed (snd row) \<noteq> None) (edges_gdf G)"

definition major_edges :: "graph \<Rightarrow> ((node \<times> node) \<times> edge_data) list option" where
  "major_edges G =
     (if has_highway G \<and> has_maxspeed G
      then Some (filter (\<lambda>row. major_edge (snd row)) (edges_gdf G))
      else None)"

definition major_nodes :: "graph \<Rightarrow> node list option" where
  "major_nodes G =
     (case major_edges G of
        None \<Rightarrow> None
      | Some rows \<Rightarrow>
          Some (fold (\<lambda>row s. set_add (snd (fst row)) (set_add (fst (fst row)) s)) rows []))"

section \<open>Scenic routes\<close>

text \<open>
  \<^verbatim>\<open>nx.shortest_path(G, s, t, weight='length')\<close> is a routine of the graph library; the
  generator takes it as given. It is a parameter of the model: \<open>None\<close> is the exception
  \<^verbatim>\<open>NetworkXNoPath\<close>, which the source catches.
\<close>

type_synonym shortest_path = "node \<Rightarrow> node \<Rightarrow> node list option"

text \<open>
  The loop \<^verbatim>\<open>for _ in range(20)\<close> of lines 94 to 124, with the number of iterations
  left, and the pair \<^verbatim>\<open>best_route\<close>, \<^verbatim>\<open>best_distance\<close> as its state.
\<close>

fun scenic_trials ::
  "graph \<Rightarrow> shortest_path \<Rightarrow> real \<Rightarrow> real \<Rightarrow> node list \<Rightarrow> nat \<Rightarrow> node list option \<times> real \<Rightarrow> rng
    \<Rightarrow> (error + node list option \<times> real) \<times> rng" where
  "scenic_trials G sp min_distance max_distance major_nodes_list 0 best r = (Inr best, r)"
| "scenic_trials G sp min_distance max_distance major_nodes_list (Suc k) best r =
     (let (start_node, r1) = choice major_nodes_list r;
          (end_node, r2) = choice major_nodes_list r1
      in if start_node = end_node
         then scenic_trials G sp min_distance max_distance major_nodes_list k best r2
         else
           (case sp start_node end_node of
              None \<Rightarrow> scenic_trials G sp min_distance max_distance major_nodes_list k best r2
            | Some route \<Rightarrow>
                (case get_route_edge_attributes G route of
                   None \<Rightarrow> (Inl Uncaught, r2)
                 | Some distance \<Rightarrow>
                     (let total_distance = sum_list (map elength distance)
                      in if min_distance \<le> total_distance \<and> total_distance \<le> max_distance
                            \<and> total_distance > snd best
                         then scenic_trials G sp min_distance max_distance major_nodes_list k
                                (Some route, total_distance) r2
                         else scenic_trials G sp min_distance max_distance major_nodes_list k
                                best r2))))"

text \<open>
  Lines 90 to 128: the search from a list of major nodes. \<^verbatim>\<open>not best_route\<close> holds for
  \<^verbatim>\<open>None\<close> and for an empty list.
\<close>

definition scenic_route_search ::
  "graph \<Rightarrow> shortest_path \<Rightarrow> node list \<Rightarrow> real \<Rightarrow> real \<Rightarrow> rng
    \<Rightarrow> (error + node list \<times> real) \<times> rng" where
  "scenic_route_search G sp major_nodes_list min_distance max_distance r =
     (case scenic_trials G sp min_distance max_distance major_nodes_list 20 (None, 0) r of
        (Inl e, r') \<Rightarrow> (Inl e, r')
      | (Inr (best_route, best_distance), r') \<Rightarrow>
          (case best_route of
             None \<Rightarrow> (Inl NotFound, r')
           | Some [] \<Rightarrow> (Inl NotFound, r')
           | Some (n # ns) \<Rightarrow> (Inr (n # ns, best_distance), r')))"

text \<open>Lines 144 to 149: the set of road names of the edges of the route.\<close>

definition road_names :: "edge_data list \<Rightarrow> string list" where
  "road_names route_edges =
     fold (\<lambda>edge_attrs s.
             case name edge_attrs of
               Some (Str n) \<Rightarrow> set_add n s
             | Some (Strs ns) \<Rightarrow> set_update ns s
             | None \<Rightarrow> s)
       route_edges []"

text \<open>
  Lines 151 to 167: the feature, from the line, the attributes of the edges, the distance
  and the number drawn for the name.
\<close>

definition scenic_properties :: "(real \<times> real) list \<Rightarrow> edge_data list \<Rightarrow> real \<Rightarrow> int \<Rightarrow> feature" where
  "scenic_properties route_line route_edges best_distance n =
     \<lparr>fname = (''NJ Scenic Route #'', n),
      distance_km = best_distance / 1000,
      distance_miles = best_distance / 1609.34,
      roads = Some (take 10 (road_names route_edges)),
      ftype = ''ai_generated'',
      difficulty = Some (calculate_difficulty route_edges),
      loop = None,
      center = None,
      coordinates = route_line\<rparr>"

text \<open>Lines 130 to 169: the feature of the best route.\<close>

definition scenic_feature ::
  "graph \<Rightarrow> node list \<Rightarrow> real \<Rightarrow> rng \<Rightarrow> (error + feature) \<times> rng" where
  "scenic_feature G best_route best_distance r =
     (case route_coords G best_route of
        None \<Rightarrow> (Inl Uncaught, r)
      | Some cs \<Rightarrow>
          (case line_string cs of
             None \<Rightarrow> (Inl Uncaught, r)
           | Some route_line \<Rightarrow>
               (case get_route_edge_attributes_keys G best_route of
                  None \<Rightarrow> (Inl Uncaught, r)
                | Some route_edges \<Rightarrow>
                    (let (n, r') = randint 1000 9999 r
                     in (Inr (scenic_properties route_line route_edges best_distance n), r')))))"

text \<open>
  Lines 58 to 169. The exception of a missing column leaves the call before anything is
  drawn.
\<close>

definition generate_scenic_route ::
  "graph \<Rightarrow> shortest_path \<Rightarrow> real \<Rightarrow> real \<Rightarrow> rng \<Rightarrow> (error + feature) \<times> rng" where
  "generate_scenic_route G sp min_distance max_distance r =
     (case major_nodes G of
        None \<Rightarrow> (Inl Uncaught, r)
      | Some major_nodes_list \<Rightarrow>
          if length major_nodes_list < 2 then (Inl InsufficientNodes, r)
          else
            (case scenic_route_search G sp major_nodes_list min_distance max_distance r of
               (Inl e, r') \<Rightarrow> (Inl e, r')
             | (Inr (best_route, best_distance), r') \<Rightarrow>
                 scenic_feature G best_route best_distance r'))"

section \<open>Loop routes\<close>

text \<open>
  Line 198: the planar distance between the centre and a node, in degrees, times 111000,
  against the radius.
\<close>

definition nearby :: "real \<times> real \<Rightarrow> real \<times> real \<Rightarrow> real \<Rightarrow> bool" where
  "nearby c p radius =
     (sqrt ((fst c - fst p)\<^sup>2 + (snd c - snd p)\<^sup>2) * 111000 \<le> radius)"

definition nearby_nodes :: "graph \<Rightarrow> real \<times> real \<Rightarrow> real \<Rightarrow> node list" where
  "nearby_nodes G c radius = map fst (filter (\<lambda>row. nearby c (snd row) radius) (nodes_gdf G))"

text \<open>
  Lines 187 to 190: the centre. With no centre given, a random node of the graph is drawn;
  drawing from a graph with no node raises (\<open>None\<close>).
\<close>

definition pick_center ::
  "graph \<Rightarrow> (real \<times> real) option \<Rightarrow> rng \<Rightarrow> (real \<times> real) option \<times> rng" where
  "pick_center G center_point r =
     (case center_point of
        Some c \<Rightarrow> (Some c, r)
      | None \<Rightarrow>
          if nodes_gdf G = [] then (None, r)
          else (let (center_node, r') = choice (map fst (nodes_gdf G)) r
                in (node_xy G center_node, r')))"

text \<open>
  The loop \<^verbatim>\<open>for i in range(len(waypoints))\<close> of lines 212 to 234, over the indices
  left, with \<^verbatim>\<open>full_route\<close> and \<^verbatim>\<open>total_distance\<close> as its state. The distance of a
  segment is taken after the segment has lost its first node.
\<close>

fun loop_segments ::
  "graph \<Rightarrow> shortest_path \<Rightarrow> node list \<Rightarrow> nat list \<Rightarrow> node list \<times> real
    \<Rightarrow> error + node list \<times> real" where
  "loop_segments G sp waypoints [] acc = Inr acc"
| "loop_segments G sp waypoints (i # is) acc =
     (case sp (waypoints ! i) (waypoints ! ((i + 1) mod length waypoints)) of
        None \<Rightarrow> Inl NoPath
      | Some path \<Rightarrow>
          (let segment = (if i > 0 then drop 1 path else path)
           in case get_route_edge_attributes G segment of
                None \<Rightarrow> Inl Uncaught
              | Some distance \<Rightarrow>
                  loop_segments G sp waypoints is
                    (fst acc @ segment, snd acc + sum_list (map elength distance))))"

text \<open>Lines 186 to 234: the route of the loop, its length and its centre.\<close>

definition loop_route_build ::
  "graph \<Rightarrow> shortest_path \<Rightarrow> (real \<times> real) option \<Rightarrow> real \<Rightarrow> rng
    \<Rightarrow> (error + node list \<times> real \<times> (real \<times> real)) \<times> rng" where
  "loop_route_build G sp center_point radius r =
     (case pick_center G center_point r of
        (None, r1) \<Rightarrow> (Inl Uncaught, r1)
      | (Some c, r1) \<Rightarrow>
          (let nearby_list = nearby_nodes G c radius
           in if length nearby_list < 4 then (Inl InsufficientNodes, r1)
              else
                (let (waypoints, r2) = sample nearby_list (min 4 (length nearby_list)) r1
                 in case loop_segments G sp waypoints [0 ..< length waypoints] ([], 0) of
                      Inl e \<Rightarrow> (Inl e, r2)
                    | Inr (full_route, total_distance) \<Rightarrow>
                        (Inr (full_route, total_distance, c), r2))))"

text \<open>Lines 236 to 262: the feature of the loop.\<close>

definition loop_feature ::
  "graph \<Rightarrow> node list \<Rightarrow> real \<Rightarrow> real \<times> real \<Rightarrow> rng \<Rightarrow> (error + feature) \<times> rng" where
  "loop_feature G full_route total_distance c r =
     (case route_coords G full_route of
        None \<Rightarrow> (Inl Uncaught, r)
      | Some cs \<Rightarrow>
          (case line_string cs of
             None \<Rightarrow> (Inl Uncaught, r)
           | Some route_line \<Rightarrow>
               (let (n, r') = randint 1000 9999 r
                in (Inr \<lparr>fname = (''NJ Circuit #'', n),
                         distance_km = total_distance / 1000,
                         distance_miles = total_distance / 1609.34,
                         roads = None,
                         ftype = ''ai_loop'',
                         difficulty = None,
                         loop = Some True,
                         center = Some c,
                         coordinates = route_line\<rparr>, r'))))"

definition generate_loop_route ::
  "graph \<Rightarrow> shortest_path \<Rightarrow> (real \<times> real) option \<Rightarrow> real \<Rightarrow> rng \<Rightarrow> (error + feature) \<times> rng" where
  "generate_loop_route G sp center_point radius r =
     (case loop_route_build G sp center_point radius r of
        (Inl e, r') \<Rightarrow> (Inl e, r')
      | (Inr (full_route, total_distance, c), r') \<Rightarrow>
          loop_feature G full_route total_distance c r')"

section \<open>Collections\<close>

text \<open>
  Lines 299 to 312: the attempt of index \<open>i\<close>. The arguments of a call are evaluated
  from left to right, so the draw for \<^verbatim>\<open>min_distance\<close> comes first.
\<close>

definition attempt :: "graph \<Rightarrow> shortest_path \<Rightarrow> nat \<Rightarrow> rng \<Rightarrow> (error + feature) \<times> rng" where
  "attempt G sp i r =
     (if i mod 2 = 0
      then (let (j1, r1) = randint (- 5000) 10000 r;
                (j2, r2) = randint (- 10000) 20000 r1
            in generate_scenic_route G sp (of_int (15000 + j1)) (of_int (50000 + j2)) r2)
      else (let (j, r1) = randint 1000 5000 r
            in generate_loop_route G sp None (of_int (3000 + j)) r1))"

text \<open>
  The loop \<^verbatim>\<open>for i in range(num_routes)\<close> with the list \<^verbatim>\<open>features\<close> as its state.
  \<^verbatim>\<open>if route\<close> holds for a feature and fails for \<^verbatim>\<open>None\<close>; an exception leaves the
  loop.
\<close>

fun routes_loop ::
  "graph \<Rightarrow> shortest_path \<Rightarrow> nat list \<Rightarrow> feature list \<Rightarrow> rng \<Rightarrow> (error + feature list) \<times> rng" where
  "routes_loop G sp [] features r = (Inr features, r)"
| "routes_loop G sp (i # is) features r =
     (case attempt G sp i r of
        (Inl Uncaught, r') \<Rightarrow> (Inl Uncaught, r')
      | (Inl e, r') \<Rightarrow> routes_loop G sp is features r'
      | (Inr route, r') \<Rightarrow> routes_loop G sp is (features @ [route]) r')"

definition generate_multiple_routes ::
  "graph \<Rightarrow> shortest_path \<Rightarrow> int \<Rightarrow> rng \<Rightarrow> (error + feature list) \<times> rng" where
  "generate_multiple_routes G sp num_routes r = routes_loop G sp [0 ..< nat num_routes] [] r"

section \<open>Notions the properties are stated with\<close>

text \<open>
  Two nodes are adjacent when the graph has an edge from the first to the second; a walk
  is a node sequence whose consecutive nodes are adjacent.
\<close>

definition adjacent :: "graph \<Rightarrow> node \<Rightarrow> node \<Rightarrow> bool" where
  "adjacent G u v = (get_edge_data G u v \<noteq> [])"

fun walk :: "graph \<Rightarrow> node list \<Rightarrow> bool" where
  "walk G (u # v # rest) = (adjacent G u v \<and> walk G (v # rest))"
| "walk G [u] = True"
| "walk G [] = True"

definition path_from_to :: "graph \<Rightarrow> node \<Rightarrow> node \<Rightarrow> node list \<Rightarrow> bool" where
  "path_from_to G s t p = (p \<noteq> [] \<and> hd p = s \<and> last p = t \<and> walk G p)"

text \<open>
  What the generator relies on when it calls the shortest-path routine: a returned path
  starts at the source, ends at the target and follows edges of the graph. That the path
  is a shortest one is used nowhere.
\<close>

definition valid_sp :: "graph \<Rightarrow> shortest_path \<Rightarrow> bool" where
  "valid_sp G sp = (\<forall>s t p. sp s t = Some p \<longrightarrow> path_from_to G s t p)"

text \<open>
  The length of a route: the sum of the lengths of the edges it traverses, when every
  consecutive pair has an edge.
\<close>

definition route_length :: "graph \<Rightarrow> node list \<Rightarrow> real option" where
  "route_length G route =
     (case get_route_edge_attributes G route of
        None \<Rightarrow> None
      | Some es \<Rightarrow> Some (sum_list (map elength es)))"

text \<open>
  The pairs of end points that \<open>k\<close> iterations of the scenic search draw, and the random
  source after \<open>n\<close> draws.
\<close>

fun sampled_pairs :: "node list \<Rightarrow> nat \<Rightarrow> rng \<Rightarrow> (node \<times> node) list" where
  "sampled_pairs ms 0 r = []"
| "sampled_pairs ms (Suc k) r =
     (let (s, r1) = choice ms r; (t, r2) = choice ms r1
      in (s, t) # sampled_pairs ms k r2)"

definition rdrop :: "nat \<Rightarrow> rng \<Rightarrow> rng" where
  "rdrop n r = (\<lambda>i. r (i + n))"

text \<open>
  The routes of the drawn pairs whose length lies in the window, in the order they are
  found: a pair of equal nodes or without a path contributes none.
\<close>

definition in_window_routes ::
  "graph \<Rightarrow> shortest_path \<Rightarrow> real \<Rightarrow> real \<Rightarrow> (node \<times> node) list \<Rightarrow> (node list \<times> real) list" where
  "in_window_routes G sp mn mx pairs =
     concat (map (\<lambda>(s, t).
        if s = t then []
        else (case sp s t of
                None \<Rightarrow> []
              | Some route \<Rightarrow>
                  (case route_length G route of
                     None \<Rightarrow> []
                   | Some d \<Rightarrow> if mn \<le> d \<and> d \<le> mx then [(route, d)] else []))) pairs)"

text \<open>
  The longest of a list of routes with their lengths, the first found among equals.
\<close>

definition first_longest :: "(node list \<times> real) list \<Rightarrow> (node list \<times> real) option" where
  "first_longest cs = find (\<lambda>c. \<forall>c' \<in> set cs. snd c' \<le> snd c) cs"

text \<open>
  One update of the pair \<^verbatim>\<open>best_route\<close>, \<^verbatim>\<open>best_distance\<close> by a route in the window,
  and the best of a list that starts with a given candidate.
\<close>

definition upd :: "node list \<times> real \<Rightarrow> node list option \<times> real \<Rightarrow> node list option \<times> real" where
  "upd c best = (if snd c > snd best then (Some (fst c), snd c) else best)"

fun best_of :: "node list \<times> real \<Rightarrow> (node list \<times> real) list \<Rightarrow> node list \<times> real" where
  "best_of c [] = c"
| "best_of c (c' # cs) = best_of (if snd c' > snd c then c' else c) cs"

text \<open>
  The road names one edge carries.
\<close>

definition edge_names :: "edge_data \<Rightarrow> string set" where
  "edge_names e = (case name e of None \<Rightarrow> {} | Some (Str n) \<Rightarrow> {n} | Some (Strs ns) \<Rightarrow> set ns)"


section \<open>Concrete inputs\<close>

text \<open>
  A random source that yields the listed draws and then zeros.
\<close>

definition rng_of :: "nat list \<Rightarrow> rng" where
  "rng_of xs = (\<lambda>i. if i < length xs then xs ! i else 0)"

text \<open>
  A speed limit in miles per hour, written with the given digits. A one-way ring of four
  primary roads of 200, 150, 300 and 250 metres with a limit of 25, with the paths
  between neighbours on the ring, and a graph whose only edge has length zero.
\<close>

definition mph :: "digit list \<Rightarrow> uchar list" where
  "mph ds = map Digit ds @ [Other 32, Other 109, Other 112, Other 104]"

definition e4 :: "real \<Rightarrow> string \<Rightarrow> edge_data" where
  "e4 l n = \<lparr>elength = l, highway = Some (Str ''primary''), name = Some (Str n),
            maxspeed = Some (mph [D2, D5])\<rparr>"

definition G4 :: graph where
  "G4 = \<lparr>nodes_gdf = [(10, (0, 0)), (20, (1/100, 0)), (30, (1/100, 1/100)), (40, (0, 1/100))],
         edges_gdf = [((10, 20), e4 200 ''A''), ((20, 30), e4 150 ''B''),
                      ((30, 40), e4 300 ''C''), ((40, 10), e4 250 ''D'')]\<rparr>"

definition sp4 :: shortest_path where
  "sp4 s t = map_of [((10, 20), [10, 20]), ((20, 30), [20, 30]), ((30, 40), [30, 40]), ((40, 10), [40, 10])] (s, t)"

definition G0 :: graph where
  "G0 = \<lparr>nodes_gdf = [(10, (0, 0)), (20, (1/100, 0))],
         edges_gdf = [((10, 20), e4 0 ''A'')]\<rparr>"

definition sp0 :: shortest_path where
  "sp0 s t = map_of [((10, 20), [10, 20])] (s, t)"

text \<open>
  The feature the generator returns on the ring for the loop around the origin with the
  waypoints 10, 20, 30 and 40.
\<close>

definition loop_f4 :: feature where
  "loop_f4 = \<lparr>fname = (''NJ Circuit #'', 1000), distance_km = 200 / 1000,
              distance_miles = 200 / 1609.34, roads = None, ftype = ''ai_loop'',
              difficulty = None, loop = Some True, center = Some (0, 0),
              coordinates = [(0, 0), (1/100, 0), (1/100, 1/100), (0, 1/100), (0, 0)]\<rparr>"



text \<open>
  An edge of a given highway class without a speed limit, and a graph whose only edge
  is a residential road of that kind: no edge of it carries the tag
  \<^verbatim>\<open>maxspeed\<close>.
\<close>

definition e_hw :: "string \<Rightarrow> edge_data" where
  "e_hw h = \<lparr>elength = 100, highway = Some (Str h), name = None, maxspeed = None\<rparr>"


text \<open>
  The ring with roads of 20, 15, 30 and 25 kilometres, the lengths the collection
  generator asks of a scenic route.
\<close>

definition G5 :: graph where
  "G5 = \<lparr>nodes_gdf = [(10, (0, 0)), (20, (1/100, 0)), (30, (1/100, 1/100)), (40, (0, 1/100))],
         edges_gdf = [((10, 20), e4 20000 ''A''), ((20, 30), e4 15000 ''B''),
                      ((30, 40), e4 30000 ''C''), ((40, 10), e4 25000 ''D'')]\<rparr>"

text \<open>
  An edge that carries eleven road names.
\<close>

definition e_named :: edge_data where
  "e_named = \<lparr>elength = 100, highway = Some (Str ''primary''),
              name = Some (Strs [''a'', ''b'', ''c'', ''d'', ''e'', ''f'', ''g'', ''h'', ''i'', ''j'', ''k'']),
              maxspeed = None\<rparr>"

section \<open>Auxiliary facts\<close>

lemma gre_walk: "(\<exists>es. get_route_edge_attributes G p = Some es) \<longleftrightarrow> walk G p"
  by (induction G p rule: get_route_edge_attributes.induct)
     (auto simp: adjacent_def split: list.splits option.splits)

lemma gre_length:
  "get_route_edge_attributes G p = Some es \<Longrightarrow> length es = length p - 1"
  by (induction G p arbitrary: es rule: get_route_edge_attributes.induct)
     (auto split: list.splits option.splits)

lemma rtl_rng_of: "rtl (rng_of xs) = rng_of (tl xs)"
  by (cases xs) (auto simp: rtl_def rng_of_def fun_eq_iff)

lemma rng_of_0: "rng_of xs 0 = (case xs of [] \<Rightarrow> 0 | x # _ \<Rightarrow> x)"
  by (cases xs) (auto simp: rng_of_def)

lemma choice_rng_of:
  "choice ms (rng_of (x # xs)) = (ms ! (x mod length ms), rng_of xs)"
  "choice ms (rng_of []) = (ms ! 0, rng_of [])"
  by (simp_all add: choice_def rtl_rng_of rng_of_0)

lemma rdrop_rng_of: "rdrop n (rng_of xs) = rng_of (drop n xs)"
  by (auto simp: rdrop_def rng_of_def fun_eq_iff add.commute)

lemma valid_sp4: "valid_sp G4 sp4"
  by (auto simp: valid_sp_def sp4_def path_from_to_def G4_def adjacent_def get_edge_data_def
      split: if_splits)

lemma valid_sp0: "valid_sp G0 sp0"
  by (auto simp: valid_sp_def sp0_def path_from_to_def G0_def adjacent_def get_edge_data_def
      split: if_splits)

lemma sampled_pairs_numeral:
  "sampled_pairs ms (numeral k) r =
     (let (s, r1) = choice ms r; (t, r2) = choice ms r1
      in (s, t) # sampled_pairs ms (pred_numeral k) r2)"
  by (simp add: numeral_eq_Suc)

lemma scenic_trials_numeral:
  "scenic_trials G sp mn mx ms (numeral k) best r =
     (let (s, r1) = choice ms r; (t, r2) = choice ms r1
      in if s = t then scenic_trials G sp mn mx ms (pred_numeral k) best r2
         else
           (case sp s t of
              None \<Rightarrow> scenic_trials G sp mn mx ms (pred_numeral k) best r2
            | Some route \<Rightarrow>
                (case get_route_edge_attributes G route of
                   None \<Rightarrow> (Inl Uncaught, r2)
                 | Some distance \<Rightarrow>
                     (let total = sum_list (map elength distance)
                      in if mn \<le> total \<and> total \<le> mx \<and> total > snd best
                         then scenic_trials G sp mn mx ms (pred_numeral k) (Some route, total) r2
                         else scenic_trials G sp mn mx ms (pred_numeral k) best r2))))"
  by (simp add: numeral_eq_Suc)

subsection \<open>Walks\<close>

lemma walk_drop1: "walk G p \<Longrightarrow> walk G (drop 1 p)"
  by (induction G p rule: walk.induct) auto

lemma walk_append:
  "walk G p \<Longrightarrow> walk G q \<Longrightarrow> (p \<noteq> [] \<Longrightarrow> q \<noteq> [] \<Longrightarrow> adjacent G (last p) (hd q))
    \<Longrightarrow> walk G (p @ q)"
proof (induction G p rule: walk.induct)
  case (1 G u v rest)
  then show ?case by auto
next
  case (2 G u)
  then show ?case by (cases q) auto
next
  case (3 G)
  then show ?case by simp
qed

lemma path_join:
  assumes "path_from_to G a b p" and "path_from_to G b c q"
  shows "path_from_to G a c (p @ drop 1 q)"
proof (cases "drop 1 q = []")
  case True
  then have "q = [b]" using assms(2) by (cases q) (auto simp: path_from_to_def)
  then have "b = c" using assms(2) by (simp add: path_from_to_def)
  then show ?thesis using assms(1) True by (simp add: path_from_to_def)
next
  case False
  then obtain x q' where q: "q = b # x # q'"
    using assms(2) by (cases q; cases "tl q") (auto simp: path_from_to_def)
  have adj: "adjacent G (last p) (hd (drop 1 q))"
    using assms q by (simp add: path_from_to_def)
  have "walk G (p @ drop 1 q)"
    using assms adj by (intro walk_append walk_drop1) (auto simp: path_from_to_def)
  moreover have "last (p @ drop 1 q) = c" using assms(2) q by (simp add: path_from_to_def)
  moreover have "hd (p @ drop 1 q) = a" using assms(1) by (simp add: path_from_to_def)
  ultimately show ?thesis using assms(1) by (simp add: path_from_to_def)
qed

subsection \<open>Sampling and the neighbourhood\<close>

lemma sample_length: "length (fst (sample xs k r)) = k"
proof (induction k arbitrary: xs r)
  case 0
  then show ?case by simp
next
  case (Suc k)
  let ?i = "r 0 mod length xs"
  obtain ys r' where s: "sample (take ?i xs @ drop (Suc ?i) xs) k (rtl r) = (ys, r')" by force
  have "length ys = k" using Suc.IH [of "take ?i xs @ drop (Suc ?i) xs" "rtl r"] s by simp
  then show ?case by (simp add: s Let_def)
qed

lemma sample_exhausted:
  "sample (x # xs) (Suc k) (rng_of []) = (x # fst (sample xs k (rng_of [])), snd (sample xs k (rng_of [])))"
  by (simp add: rtl_rng_of rng_of_0 split: prod.splits)

lemma nearby_iff:
  "nearby c p radius \<longleftrightarrow>
     0 \<le> radius \<and> ((fst c - fst p)\<^sup>2 + (snd c - snd p)\<^sup>2) * 111000\<^sup>2 \<le> radius\<^sup>2"
proof -
  define x where "x = (fst c - fst p)\<^sup>2 + (snd c - snd p)\<^sup>2"
  define a where "a = sqrt x * 111000"
  have x0: "0 \<le> x" by (simp add: x_def)
  have a0: "0 \<le> a" using x0 by (simp add: a_def)
  have sq: "a\<^sup>2 = x * 111000\<^sup>2"
    using x0 unfolding a_def by (simp only: power_mult_distrib real_sqrt_pow2)
  have "a \<le> radius \<longleftrightarrow> 0 \<le> radius \<and> a\<^sup>2 \<le> radius\<^sup>2"
  proof (cases "0 \<le> radius")
    case True
    have "a\<^sup>2 \<le> radius\<^sup>2 \<longleftrightarrow> \<bar>a\<bar> \<le> \<bar>radius\<bar>" by (rule abs_le_square_iff [symmetric])
    then show ?thesis using a0 True by simp
  next
    case False
    then show ?thesis using a0 by simp
  qed
  then show ?thesis unfolding nearby_def x_def [symmetric] a_def [symmetric] sq .
qed

lemma pick_center_given: "pick_center G (Some c) r = (Some c, r)"
  by (simp add: pick_center_def)

subsection \<open>What a successful call went through\<close>

lemma route_coords_map: "route_coords G p = Some cs \<Longrightarrow> map (node_xy G) p = map Some cs"
  by (induction p arbitrary: cs) (auto split: option.splits)

lemma loop_feature_cases:
  assumes "loop_feature G route d c r = (Inr f, r')"
  obtains n where
    "route_coords G route = Some (coordinates f)"
    "length (coordinates f) \<noteq> 1"
    "randint 1000 9999 r = (n, r')"
    "distance_km f = d / 1000" "distance_miles f = d / 1609.34"
    "roads f = None" "difficulty f = None" "center f = Some c"
  using assms
  by (auto simp: loop_feature_def line_string_def split: option.splits if_splits prod.splits)

lemma generate_loop_route_cases:
  assumes "generate_loop_route G sp cp radius r = (Inr f, r')"
  obtains route d c r1 where
    "loop_route_build G sp cp radius r = (Inr (route, d, c), r1)"
    "loop_feature G route d c r1 = (Inr f, r')"
  using assms
  by (auto simp: generate_loop_route_def split: prod.splits sum.splits)

lemma loop_route_build_cases:
  assumes "loop_route_build G sp center_point radius r = (Inr (route, d, c), r')"
  obtains r1 ws where
    "pick_center G center_point r = (Some c, r1)"
    "\<not> length (nearby_nodes G c radius) < 4"
    "sample (nearby_nodes G c radius) (min 4 (length (nearby_nodes G c radius))) r1 = (ws, r')"
    "loop_segments G sp ws [0 ..< length ws] ([], 0) = Inr (route, d)"
  using assms
  by (auto simp: loop_route_build_def Let_def split: prod.splits option.splits if_splits sum.splits)

subsection \<open>Sets as lists\<close>

lemma set_add_props: "distinct s \<Longrightarrow> distinct (set_add x s) \<and> set (set_add x s) = insert x (set s)"
  by (auto simp: set_add_def)

lemma set_update_props:
  "distinct s \<Longrightarrow> distinct (set_update xs s) \<and> set (set_update xs s) = set xs \<union> set s"
  unfolding set_update_def
proof (induction xs arbitrary: s)
  case Nil
  then show ?case by simp
next
  case (Cons x xs)
  from set_add_props [OF Cons.prems, of x] Cons.IH [of "set_add x s"] show ?case by auto
qed

section \<open>Runs on the concrete inputs\<close>

lemma nearby_G4: "nearby_nodes G4 (0, 0) 5000 = [10, 20, 30, 40]"
  by (simp add: nearby_nodes_def G4_def nearby_iff power2_eq_square)

lemma min_G4: "min 4 (length [10, 20, 30, 40 :: nat]) = Suc (Suc (Suc (Suc 0)))"
  by simp

lemma sample_G4:
  "sample [10, 20, 30, 40 :: nat] (min 4 (length [10, 20, 30, 40 :: nat])) (rng_of []) =
     ([10, 20, 30, 40], rng_of [])"
  unfolding min_G4 by (simp only: sample_exhausted sample.simps(1) fst_conv snd_conv)

lemma segments_G4:
  "loop_segments G4 sp4 [10, 20, 30, 40] [0 ..< length [10, 20, 30, 40 :: nat]] ([], 0) =
     Inr ([10, 20, 30, 40, 10], 200)"
  by (simp add: G4_def sp4_def get_edge_data_def e4_def upt_rec)

lemma length_G4: "\<not> length [10, 20, 30, 40 :: nat] < 4"
  by simp

lemma loop_build_G4:
  "loop_route_build G4 sp4 (Some (0, 0)) 5000 (rng_of []) =
     (Inr ([10, 20, 30, 40, 10], 200, (0, 0)), rng_of [])"
  unfolding loop_route_build_def pick_center_given
  by (simp only: prod.case option.case Let_def nearby_G4 length_G4 if_False sample_G4
      segments_G4 sum.case)

lemma randint_exhausted: "randint 1000 9999 (rng_of []) = (1000, rng_of [])"
  by (simp add: randint_def rtl_rng_of rng_of_0)

lemma loop_route_G4:
  "generate_loop_route G4 sp4 (Some (0, 0)) 5000 (rng_of []) = (Inr loop_f4, rng_of [])"
  unfolding generate_loop_route_def loop_build_G4
  by (simp add: loop_feature_def G4_def node_xy_def line_string_def randint_exhausted loop_f4_def)

lemma major_nodes_G4: "major_nodes G4 = Some [10, 20, 30, 40]"
  by (simp add: major_nodes_def major_edges_def has_highway_def has_maxspeed_def major_edge_def
      G4_def e4_def set_add_def)

lemma major_nodes_G5: "major_nodes G5 = Some [10, 20, 30, 40]"
  by (simp add: major_nodes_def major_edges_def has_highway_def has_maxspeed_def major_edge_def
      G5_def e4_def set_add_def)

lemma valid_sp5: "valid_sp G5 sp4"
  by (auto simp: valid_sp_def sp4_def path_from_to_def G5_def adjacent_def get_edge_data_def
      split: if_splits)

section \<open>Properties of the difficulty classifier\<close>

lemma count_highway:
  "length (filter (\<lambda>h. h = Str a \<or> h = Str b)
      (map (\<lambda>edge. case highway edge of None \<Rightarrow> Str [] | Some h \<Rightarrow> h) es))
   = length (filter (\<lambda>h. h = Some (Str a) \<or> h = Some (Str b)) (map highway es))"
  if "a \<noteq> []" "b \<noteq> []"
  using that by (induction es) (auto split: option.splits)

text \<open>
  C4. The difficulty label is a function of the sequence of highway classes of the
  route's edges alone, and it is the label the specification's four ordered checks give:
  medium for no edge, else extreme when the motorway ratio exceeds 0.5, else hard when
  the two ratios together exceed 0.6, else medium when the primary ratio exceeds 0.4,
  else easy.
\<close>

theorem calculate_difficulty_classify:
  "calculate_difficulty route_edges = classify (map highway route_edges)"
proof -
  have m: "length (filter (\<lambda>h. h = Str ''motorway'' \<or> h = Str ''motorway_link'')
      (map (\<lambda>edge. case highway edge of None \<Rightarrow> Str [] | Some h \<Rightarrow> h) route_edges))
    = length (filter (\<lambda>h. h = Some (Str ''motorway'') \<or> h = Some (Str ''motorway_link''))
      (map highway route_edges))"
    by (rule count_highway) simp_all
  have p: "length (filter (\<lambda>h. h = Str ''primary'' \<or> h = Str ''trunk'')
      (map (\<lambda>edge. case highway edge of None \<Rightarrow> Str [] | Some h \<Rightarrow> h) route_edges))
    = length (filter (\<lambda>h. h = Some (Str ''primary'') \<or> h = Some (Str ''trunk''))
      (map highway route_edges))"
    by (rule count_highway) simp_all
  show ?thesis
    unfolding calculate_difficulty_def classify_def motorwayRatio_def primaryRatio_def Let_def m p
    by (simp add: add_divide_distrib)
qed

text \<open>
  The theorem of C4 at the two examples of the specification (six motorway edges of ten:
  extreme; five primary edges of ten and no motorway: medium) and at the empty route.
\<close>

theorem calculate_difficulty_classify_witness:
  "calculate_difficulty (replicate 6 (e_hw ''motorway'') @ replicate 4 (e_hw ''residential'')) = ''extreme'' \<and>
   calculate_difficulty (replicate 5 (e_hw ''primary'') @ replicate 5 (e_hw ''residential'')) = ''medium'' \<and>
   calculate_difficulty [] = ''medium''"
proof -
  have h: "highway (e_hw x) = Some (Str x)" for x by (simp add: e_hw_def)
  have a: "classify (map highway (replicate 6 (e_hw ''motorway'') @ replicate 4 (e_hw ''residential''))) = ''extreme''"
    by (simp add: classify_def motorwayRatio_def primaryRatio_def h)
  have b: "classify (map highway (replicate 5 (e_hw ''primary'') @ replicate 5 (e_hw ''residential''))) = ''medium''"
    by (simp add: classify_def motorwayRatio_def primaryRatio_def h)
  have c: "classify (map highway []) = ''medium''" by (simp add: classify_def)
  show ?thesis by (simp only: calculate_difficulty_classify a b c simp_thms)
qed

section \<open>Properties of the major-node selection\<close>













section \<open>Properties of the scenic search\<close>

lemma scenic_trials_inv:
  assumes "scenic_trials G sp mn mx ms k best r = (Inr (Some route, d), r')"
    and "\<And>p. fst best = Some p \<Longrightarrow>
           route_length G p = Some (snd best) \<and> mn \<le> snd best \<and> snd best \<le> mx \<and> 0 < snd best"
    and "0 \<le> snd best"
  shows "route_length G route = Some d \<and> mn \<le> d \<and> d \<le> mx \<and> 0 < d"
  using assms
proof (induction k arbitrary: best r)
  case 0
  then show ?case by auto
next
  case (Suc k)
  obtain s r1 where c1: "choice ms r = (s, r1)" by force
  obtain t r2 where c2: "choice ms r1 = (t, r2)" by force
  note run = Suc.prems(1) [simplified scenic_trials.simps c1 c2 Let_def prod.case]
  show ?case
  proof (cases "s = t")
    case True
    with run have "scenic_trials G sp mn mx ms k best r2 = (Inr (Some route, d), r')" by simp
    then show ?thesis using Suc.prems(2,3) by (rule Suc.IH)
  next
    case ne: False
    show ?thesis
    proof (cases "sp s t")
      case None
      with run ne have "scenic_trials G sp mn mx ms k best r2 = (Inr (Some route, d), r')" by simp
      then show ?thesis using Suc.prems(2,3) by (rule Suc.IH)
    next
      case (Some p)
      show ?thesis
      proof (cases "get_route_edge_attributes G p")
        case None
        with run ne Some show ?thesis by simp
      next
        case es: (Some es)
        let ?total = "sum_list (map elength es)"
        show ?thesis
        proof (cases "mn \<le> ?total \<and> ?total \<le> mx \<and> ?total > snd best")
          case True
          with run ne Some es
          have "scenic_trials G sp mn mx ms k (Some p, ?total) r2 = (Inr (Some route, d), r')"
            by simp
          moreover have "\<And>q. fst (Some p, ?total) = Some q \<Longrightarrow>
              route_length G q = Some (snd (Some p, ?total)) \<and> mn \<le> snd (Some p, ?total)
                \<and> snd (Some p, ?total) \<le> mx \<and> 0 < snd (Some p, ?total)"
            using True es Suc.prems(3) by (auto simp: route_length_def)
          moreover have "0 \<le> snd (Some p, ?total)" using True Suc.prems(3) by simp
          ultimately show ?thesis by (rule Suc.IH)
        next
          case False
          with run ne Some es
          have "scenic_trials G sp mn mx ms k best r2 = (Inr (Some route, d), r')" by auto
          then show ?thesis using Suc.prems(2,3) by (rule Suc.IH)
        qed
      qed
    qed
  qed
qed

text \<open>
  C2. Whenever the scenic search returns a route, for any graph, any list of major nodes
  and any window, the recorded distance is the sum of the lengths of the edges the route
  traverses, and it lies between the minimum and the maximum distance.
\<close>

theorem scenic_route_in_window:
  assumes "scenic_route_search G sp ms mn mx r = (Inr (route, d), r')"
  shows "route_length G route = Some d \<and> mn \<le> d \<and> d \<le> mx"
proof -
  from assms have "scenic_trials G sp mn mx ms 20 (None, 0) r = (Inr (Some route, d), r')"
    by (auto simp: scenic_route_search_def split: prod.splits sum.splits option.splits list.splits)
  from scenic_trials_inv [OF this] show ?thesis by simp
qed

text \<open>
  The theorem of C2 at a run on the ring: the pairs drawn are (10, 20) of 200 metres,
  outside the window, and (30, 40) of 300 metres, inside it.
\<close>

theorem scenic_route_in_window_witness:
  "scenic_route_search G4 sp4 [10, 20, 30, 40] 250 1000 (rng_of [0, 5, 2, 3]) =
     (Inr ([30, 40], 300), rng_of []) \<and>
   route_length G4 [30, 40] = Some 300 \<and> (250::real) \<le> 300 \<and> (300::real) \<le> 1000"
proof -
  have run: "scenic_route_search G4 sp4 [10, 20, 30, 40] 250 1000 (rng_of [0, 5, 2, 3]) =
     (Inr ([30, 40], 300), rng_of [])"
    by (simp add: scenic_route_search_def scenic_trials_numeral choice_rng_of sp4_def G4_def
        get_edge_data_def e4_def)
  from scenic_route_in_window [OF run] run show ?thesis by simp
qed

lemma rdrop_rtl: "rdrop n (rtl (rtl r)) = rdrop (Suc (Suc n)) r"
  by (simp add: rdrop_def rtl_def)

lemma rdrop_0: "rdrop 0 r = r"
  by (simp add: rdrop_def)

lemma trials_fold:
  assumes "valid_sp G sp"
  shows "scenic_trials G sp mn mx ms k best r =
           (Inr (fold upd (in_window_routes G sp mn mx (sampled_pairs ms k r)) best), rdrop (2 * k) r)"
proof (induction k arbitrary: best r)
  case 0
  then show ?case by (simp add: in_window_routes_def rdrop_0)
next
  case (Suc k)
  obtain s r1 where c1: "choice ms r = (s, r1)" by force
  obtain t r2 where c2: "choice ms r1 = (t, r2)" by force
  have r2: "r2 = rtl (rtl r)" using c1 c2 by (auto simp: choice_def)
  have dr: "rdrop (2 * k) r2 = rdrop (2 * Suc k) r" by (simp add: r2 rdrop_rtl)
  have iw: "in_window_routes G sp mn mx (sampled_pairs ms (Suc k) r) =
      in_window_routes G sp mn mx [(s, t)] @ in_window_routes G sp mn mx (sampled_pairs ms k r2)"
    by (simp add: in_window_routes_def c1 c2)
  have walk_ok: "\<exists>es. get_route_edge_attributes G p = Some es" if "sp s t = Some p" for p
    using assms that by (auto simp: valid_sp_def path_from_to_def gre_walk)
  have step: "scenic_trials G sp mn mx ms (Suc k) best r =
      scenic_trials G sp mn mx ms k (fold upd (in_window_routes G sp mn mx [(s, t)]) best) r2"
    using walk_ok
    by (cases best)
       (auto simp: c1 c2 in_window_routes_def route_length_def upd_def split: option.splits)
  show ?case
    unfolding iw fold_append comp_def dr [symmetric] step
    by (rule Suc.IH)
qed

lemma fold_upd_best_of:
  "fold upd cs (Some (fst c), snd c) = (Some (fst (best_of c cs)), snd (best_of c cs))"
  by (induction cs arbitrary: c) (auto simp: upd_def)

lemma first_longest_step:
  "first_longest (c # c' # cs) = first_longest ((if snd c' > snd c then c' else c) # cs)"
proof (cases "snd c' > snd c")
  case True
  have "find (\<lambda>x. \<forall>y \<in> set (c # c' # cs). snd y \<le> snd x) (c' # cs)
      = find (\<lambda>x. \<forall>y \<in> set (c' # cs). snd y \<le> snd x) (c' # cs)"
    using True by (intro find_cong) auto
  then show ?thesis using True by (simp add: first_longest_def)
next
  case False
  show ?thesis
  proof (cases "\<forall>y \<in> set cs. snd y \<le> snd c")
    case True
    then show ?thesis using False by (auto simp: first_longest_def)
  next
    case nm: False
    have "find (\<lambda>x. \<forall>y \<in> set (c # c' # cs). snd y \<le> snd x) cs
      = find (\<lambda>x. \<forall>y \<in> set (c # cs). snd y \<le> snd x) cs"
      using False by (intro find_cong) auto
    then show ?thesis using False nm by (auto simp: first_longest_def)
  qed
qed

lemma first_longest_best_of: "first_longest (c # cs) = Some (best_of c cs)"
proof (induction cs arbitrary: c)
  case Nil
  then show ?case by (simp add: first_longest_def)
next
  case (Cons c' cs)
  show ?case by (simp only: first_longest_step Cons.IH best_of.simps)
qed

lemma best_of_filter:
  "0 < snd c \<Longrightarrow> best_of c (filter (\<lambda>c. 0 < snd c) cs) = best_of c cs"
  by (induction cs arbitrary: c) auto

lemma fold_upd_init:
  "fold upd cs (None, 0) =
     (case first_longest (filter (\<lambda>c. 0 < snd c) cs) of
        None \<Rightarrow> (None, 0)
      | Some c \<Rightarrow> (Some (fst c), snd c))"
proof (induction cs)
  case Nil
  then show ?case by (simp add: first_longest_def)
next
  case (Cons c cs)
  show ?case
  proof (cases "0 < snd c")
    case True
    have "fold upd (c # cs) (None, 0) = fold upd cs (Some (fst c), snd c)"
      using True by (simp add: upd_def)
    then show ?thesis
      using True by (simp add: fold_upd_best_of first_longest_best_of best_of_filter)
  next
    case False
    then show ?thesis using Cons.IH by (simp add: upd_def)
  qed
qed

lemma in_window_nonempty_route:
  "(p, d) \<in> set (in_window_routes G sp mn mx pairs) \<Longrightarrow> 0 < d \<Longrightarrow> p \<noteq> []"
  by (auto simp: in_window_routes_def route_length_def split: if_splits option.splits)

lemma find_mem: "find P xs = Some x \<Longrightarrow> x \<in> set xs"
  by (induction xs) (auto split: if_splits)

text \<open>
  C6, as amended. The search draws exactly 20 pairs, two draws each, whatever the pair
  leads to. Among the routes of those pairs that lie in the window and have a length
  above zero it returns the longest, the first found among equals; it reports that no
  route was found exactly when there is no such route. (The best distance starts at
  zero and a route replaces the best only when it is longer, so a route of length zero
  is never kept.)
\<close>

theorem scenic_search_first_longest:
  assumes "valid_sp G sp"
  shows "scenic_route_search G sp ms mn mx r =
           ((case first_longest (filter (\<lambda>c. 0 < snd c)
                     (in_window_routes G sp mn mx (sampled_pairs ms 20 r))) of
               None \<Rightarrow> Inl NotFound
             | Some c \<Rightarrow> Inr c),
            rdrop 40 r)"
proof -
  let ?cs = "filter (\<lambda>c. 0 < snd c) (in_window_routes G sp mn mx (sampled_pairs ms 20 r))"
  have t: "scenic_trials G sp mn mx ms 20 (None, 0) r =
      (Inr (case first_longest ?cs of None \<Rightarrow> (None, 0) | Some c \<Rightarrow> (Some (fst c), snd c)), rdrop 40 r)"
    by (simp add: trials_fold [OF assms] fold_upd_init)
  show ?thesis
  proof (cases "first_longest ?cs")
    case None
    then show ?thesis by (simp add: scenic_route_search_def t)
  next
    case (Some c)
    then have "c \<in> set ?cs" unfolding first_longest_def by (rule find_mem)
    then have m: "(fst c, snd c) \<in> set (in_window_routes G sp mn mx (sampled_pairs ms 20 r))"
      and pos: "0 < snd c" by simp_all
    have "fst c \<noteq> []" using m pos by (rule in_window_nonempty_route)
    then obtain n ns where ne: "fst c = n # ns" by (cases "fst c") auto
    have c: "c = (n # ns, snd c)" using ne by (cases c) simp
    show ?thesis
      unfolding scenic_route_search_def t Some
      by (subst (2) c, simp add: ne)
  qed
qed

lemma pairs4:
  "sampled_pairs [10, 20, 30, 40] 20 (rng_of [0, 5, 2, 3, 0, 0, 5, 0, 2, 3]) =
     [(10, 20), (30, 40), (10, 10), (20, 10), (30, 40),
      (10, 10), (10, 10), (10, 10), (10, 10), (10, 10),
      (10, 10), (10, 10), (10, 10), (10, 10), (10, 10),
      (10, 10), (10, 10), (10, 10), (10, 10), (10, 10)]"
  by (simp add: sampled_pairs_numeral choice_rng_of)

lemma window4:
  "in_window_routes G4 sp4 100 1000
     [(10, 20), (30, 40), (10, 10), (20, 10), (30, 40),
      (10, 10), (10, 10), (10, 10), (10, 10), (10, 10),
      (10, 10), (10, 10), (10, 10), (10, 10), (10, 10),
      (10, 10), (10, 10), (10, 10), (10, 10), (10, 10)] =
   [([10, 20], 200), ([30, 40], 300), ([30, 40], 300)]"
  by (simp add: in_window_routes_def sp4_def route_length_def G4_def get_edge_data_def e4_def)

text \<open>
  The theorem of C6 at a run on the ring: the drawn pairs give a route of 200 metres,
  one of 300 metres, a pair of equal nodes, a pair without a path and the route of 300
  metres again; the first route of 300 metres is returned after 40 draws.
\<close>

theorem scenic_search_first_longest_witness:
  "valid_sp G4 sp4 \<and>
   scenic_route_search G4 sp4 [10, 20, 30, 40] 100 1000 (rng_of [0, 5, 2, 3, 0, 0, 5, 0, 2, 3]) =
     (Inr ([30, 40], 300), rng_of [])"
  using scenic_search_first_longest [OF valid_sp4, of "[10, 20, 30, 40]" 100 1000
      "rng_of [0, 5, 2, 3, 0, 0, 5, 0, 2, 3]"]
  unfolding pairs4 window4
  by (simp add: valid_sp4 first_longest_def rdrop_rng_of)

text \<open>
  C6 as stated fails: on the graph whose only edge has length zero, with the window from
  0 to 100, the route from 10 to 20 is drawn, lies in the window and is the longest such
  route, and the search reports that no route was found.
\<close>

theorem zero_length_route_not_returned:
  "first_longest (in_window_routes G0 sp0 0 100 (sampled_pairs [10, 20] 20 (rng_of [0, 3])))
     = Some ([10, 20], 0) \<and>
   scenic_route_search G0 sp0 [10, 20] 0 100 (rng_of [0, 3]) = (Inl NotFound, rng_of [])"
proof -
  have p: "in_window_routes G0 sp0 0 100 (sampled_pairs [10, 20] 20 (rng_of [0, 3]))
      = [([10, 20], 0)]"
    by (simp add: sampled_pairs_numeral choice_rng_of in_window_routes_def sp0_def
        route_length_def G0_def get_edge_data_def e4_def numeral_2_eq_2 [symmetric])
  have s: "scenic_route_search G0 sp0 [10, 20] 0 100 (rng_of [0, 3]) = (Inl NotFound, rng_of [])"
    by (simp add: scenic_route_search_def scenic_trials_numeral choice_rng_of sp0_def G0_def
        get_edge_data_def e4_def)
  show ?thesis by (simp add: p s first_longest_def)
qed

section \<open>Properties of the loop builder\<close>

lemma loop_segments_closed:
  assumes "valid_sp G sp" and "0 < length ws"
  shows "loop_segments G sp ws [j ..< length ws] (route, tot) = Inr (route', tot')
    \<Longrightarrow> j \<le> length ws
    \<Longrightarrow> (if j = 0 then route = [] else path_from_to G (ws ! 0) (ws ! (j mod length ws)) route)
    \<Longrightarrow> path_from_to G (ws ! 0) (ws ! 0) route'"
proof (induction "length ws - j" arbitrary: j route tot)
  case 0
  then have "j = length ws" by simp
  then show ?case using "0.prems" assms(2) by simp
next
  case (Suc d)
  then have lt: "j < length ws" by simp
  have upt: "[j ..< length ws] = j # [Suc j ..< length ws]" using lt by (rule upt_conv_Cons)
  let ?t = "ws ! ((j + 1) mod length ws)"
  from Suc.prems(1) obtain path where sp: "sp (ws ! j) ?t = Some path"
    unfolding upt by (cases "sp (ws ! j) ?t") auto
  have pv: "path_from_to G (ws ! j) ?t path" using assms(1) sp by (auto simp: valid_sp_def)
  let ?seg = "if j > 0 then drop 1 path else path"
  from Suc.prems(1) sp obtain ds where gre: "get_route_edge_attributes G ?seg = Some ds"
    unfolding upt by (cases "get_route_edge_attributes G ?seg") (auto simp: Let_def)
  have next_run: "loop_segments G sp ws [Suc j ..< length ws]
      (route @ ?seg, tot + sum_list (map elength ds)) = Inr (route', tot')"
    using Suc.prems(1) sp gre unfolding upt by (simp add: Let_def)
  have inv: "path_from_to G (ws ! 0) (ws ! (Suc j mod length ws)) (route @ ?seg)"
  proof (cases "j = 0")
    case True
    then show ?thesis using Suc.prems(3) pv by simp
  next
    case False
    then have "path_from_to G (ws ! 0) (ws ! j) route" using Suc.prems(3) lt by simp
    from path_join [OF this pv] False show ?thesis by simp
  qed
  show ?case
    by (rule Suc.hyps(1) [OF _ next_run]) (use Suc.hyps(2) lt inv in auto)
qed

text \<open>
  C10. Every route the loop builder returns is not empty and begins and ends at the same
  node, the first of the sampled waypoints, provided the shortest-path routine returns
  paths of the graph from its source to its target.
\<close>

theorem loop_route_closed:
  assumes "valid_sp G sp"
    and "loop_route_build G sp center_point radius r = (Inr (route, d, c), r')"
  shows "route \<noteq> [] \<and> hd route = last route \<and>
    (\<exists>r1. pick_center G center_point r = (Some c, r1) \<and>
       hd route = hd (fst (sample (nearby_nodes G c radius)
                            (min 4 (length (nearby_nodes G c radius))) r1)))"
proof -
  from assms(2) obtain r1 ws where
    pc: "pick_center G center_point r = (Some c, r1)" and
    n4: "\<not> length (nearby_nodes G c radius) < 4" and
    sm: "sample (nearby_nodes G c radius) (min 4 (length (nearby_nodes G c radius))) r1 = (ws, r')" and
    ls: "loop_segments G sp ws [0 ..< length ws] ([], 0) = Inr (route, d)"
    by (rule loop_route_build_cases)
  have len: "length ws = 4"
    using sample_length [of "nearby_nodes G c radius" "min 4 (length (nearby_nodes G c radius))" r1]
      sm n4 by simp
  have "path_from_to G (ws ! 0) (ws ! 0) route"
    by (rule loop_segments_closed [OF assms(1) _ ls]) (simp_all add: len)
  moreover have "ws ! 0 = hd ws" using len by (cases ws) auto
  ultimately show ?thesis using pc sm by (auto simp: path_from_to_def)
qed

text \<open>
  The theorem of C10 at the loop around the origin of the ring: the route is
  10, 20, 30, 40, 10.
\<close>

theorem loop_route_closed_witness:
  "valid_sp G4 sp4 \<and>
   loop_route_build G4 sp4 (Some (0, 0)) 5000 (rng_of []) =
     (Inr ([10, 20, 30, 40, 10], 200, (0, 0)), rng_of []) \<and>
   hd [10, 20, 30, 40, 10 :: nat] = last [10, 20, 30, 40, 10] \<and>
   hd [10, 20, 30, 40, 10 :: nat] = hd (fst (sample (nearby_nodes G4 (0, 0) 5000)
      (min 4 (length (nearby_nodes G4 (0, 0) 5000))) (rng_of [])))"
  using loop_route_closed [OF valid_sp4 loop_build_G4]
  by (simp add: valid_sp4 loop_build_G4 pick_center_given)

text \<open>
  C1, evaluated at the failing input: the ring with segments of 200, 150, 300 and 250
  metres between the waypoints 10, 20, 30 and 40. Each of the four segments has the
  length the specification gives it, 900 metres in total, and the builder reports 200
  metres, the feature 0.2 kilometres: the length of every segment but the first is taken
  after its first node was removed, so its first edge is not counted.
\<close>

theorem loop_total_misses_first_edges:
  "loop_route_build G4 sp4 (Some (0, 0)) 5000 (rng_of []) =
     (Inr ([10, 20, 30, 40, 10], 200, (0, 0)), rng_of []) \<and>
   map (\<lambda>(s, t). case sp4 s t of None \<Rightarrow> None | Some p \<Rightarrow> route_length G4 p)
     [(10, 20), (20, 30), (30, 40), (40, 10)] = [Some 200, Some 150, Some 300, Some 250] \<and>
   generate_loop_route G4 sp4 (Some (0, 0)) 5000 (rng_of []) = (Inr loop_f4, rng_of []) \<and>
   distance_km loop_f4 = 200 / 1000"
proof -
  have "map (\<lambda>(s, t). case sp4 s t of None \<Rightarrow> None | Some p \<Rightarrow> route_length G4 p)
     [(10, 20), (20, 30), (30, 40), (40, 10)] = [Some 200, Some 150, Some 300, Some 250]"
    by (simp add: sp4_def route_length_def G4_def get_edge_data_def e4_def)
  moreover have "distance_km loop_f4 = 200 / 1000" by (simp add: loop_f4_def)
  ultimately show ?thesis by (simp only: loop_build_G4 loop_route_G4 simp_thms)
qed

section \<open>Properties of the features\<close>

text \<open>
  A route that the scenic search returns has an edge, and the call of line 139 raises
  for such a route: the scenic generator returns no feature.
\<close>

lemma scenic_search_found:
  assumes "scenic_route_search G sp ms mn mx r = (Inr (route, d), r')"
  shows "route_length G route = Some d \<and> 0 < d"
proof -
  from assms have "scenic_trials G sp mn mx ms 20 (None, 0) r = (Inr (Some route, d), r')"
    by (auto simp: scenic_route_search_def split: prod.splits sum.splits option.splits list.splits)
  from scenic_trials_inv [OF this] show ?thesis by simp
qed

lemma scenic_feature_raises:
  assumes "2 \<le> length route"
  shows "fst (scenic_feature G route d r) = Inl Uncaught"
proof -
  obtain u v rest where "route = u # v # rest"
    using assms by (cases route; cases "tl route") auto
  then show ?thesis
    by (simp add: scenic_feature_def split: option.splits)
qed

lemma scenic_route_no_feature: "fst (generate_scenic_route G sp mn mx r) \<noteq> Inr f"
proof (cases "major_nodes G")
  case None
  then show ?thesis by (simp add: generate_scenic_route_def)
next
  case (Some ms)
  show ?thesis
  proof (cases "length ms < 2")
    case True
    then show ?thesis using Some by (simp add: generate_scenic_route_def)
  next
    case False
    obtain res r1 where s: "scenic_route_search G sp ms mn mx r = (res, r1)" by force
    show ?thesis
    proof (cases res)
      case (Inl e)
      then show ?thesis using Some False s by (simp add: generate_scenic_route_def)
    next
      case (Inr rd)
      obtain route d where rd: "rd = (route, d)" by (cases rd)
      from scenic_search_found [OF s [unfolded Inr rd]]
      obtain es where es: "get_route_edge_attributes G route = Some es"
        "0 < sum_list (map elength es)"
        by (auto simp: route_length_def split: option.splits)
      then have "es \<noteq> []" by auto
      then have "2 \<le> length route" using gre_length [OF es(1)] by (cases es) auto
      then have "fst (scenic_feature G route d r1) = Inl Uncaught" by (rule scenic_feature_raises)
      then show ?thesis using Some False s Inr rd by (simp add: generate_scenic_route_def)
    qed
  qed
qed

text \<open>
  C7. The features of either strategy are the features of loops, since the scenic
  generator returns none. The coordinate list of a feature is the list of the coordinates
  of the nodes of the route it was built from, one pair per node and in the order of the
  route, and the route is a walk of the graph: consecutive nodes are adjacent, also where
  two segments of the loop meet. This rests on the shortest-path routine returning paths
  of the graph.
\<close>

theorem feature_coordinates_follow_route:
  assumes "valid_sp G sp"
  shows "fst (generate_scenic_route G sp mn mx r) \<noteq> Inr f
       \<and> (generate_loop_route G sp cp radius r = (Inr f, r') \<longrightarrow>
           (\<exists>route d c r1. loop_route_build G sp cp radius r = (Inr (route, d, c), r1) \<and>
              map (node_xy G) route = map Some (coordinates f) \<and> walk G route))"
proof (intro conjI impI)
  show "fst (generate_scenic_route G sp mn mx r) \<noteq> Inr f" by (rule scenic_route_no_feature)
next
  assume "generate_loop_route G sp cp radius r = (Inr f, r')"
  then obtain route d c r1 where
    b: "loop_route_build G sp cp radius r = (Inr (route, d, c), r1)" and
    f: "loop_feature G route d c r1 = (Inr f, r')"
    by (rule generate_loop_route_cases)
  from b obtain r0 ws where
    n4: "\<not> length (nearby_nodes G c radius) < 4" and
    sm: "sample (nearby_nodes G c radius) (min 4 (length (nearby_nodes G c radius))) r0 = (ws, r1)" and
    ls: "loop_segments G sp ws [0 ..< length ws] ([], 0) = Inr (route, d)"
    by (rule loop_route_build_cases)
  have len: "length ws = 4"
    using sample_length [of "nearby_nodes G c radius" "min 4 (length (nearby_nodes G c radius))" r0]
      sm n4 by simp
  have "path_from_to G (ws ! 0) (ws ! 0) route"
    by (rule loop_segments_closed [OF assms _ ls]) (simp_all add: len)
  then have "walk G route" by (simp add: path_from_to_def)
  moreover from f have "map (node_xy G) route = map Some (coordinates f)"
    by (rule loop_feature_cases) (rule route_coords_map)
  ultimately show "\<exists>route d c r1. loop_route_build G sp cp radius r = (Inr (route, d, c), r1) \<and>
      map (node_xy G) route = map Some (coordinates f) \<and> walk G route"
    using b by blast
qed

text \<open>
  The theorem of C7 on the ring: the scenic generator finds the route from 30 to 40 and
  ends in the exception; the loop around the origin gives its feature.
\<close>

theorem feature_coordinates_follow_route_witness:
  "valid_sp G4 sp4 \<and>
   fst (generate_scenic_route G4 sp4 250 1000 (rng_of [0, 5, 2, 3])) = Inl Uncaught \<and>
   generate_loop_route G4 sp4 (Some (0, 0)) 5000 (rng_of []) = (Inr loop_f4, rng_of []) \<and>
   map (node_xy G4) [10, 20, 30, 40, 10] = map Some (coordinates loop_f4) \<and>
   walk G4 [10, 20, 30, 40, 10]"
proof -
  have s: "scenic_route_search G4 sp4 [10, 20, 30, 40] 250 1000 (rng_of [0, 5, 2, 3]) =
     (Inr ([30, 40], 300), rng_of [])"
    by (simp add: scenic_route_search_def scenic_trials_numeral choice_rng_of sp4_def G4_def
        get_edge_data_def e4_def)
  have u: "fst (generate_scenic_route G4 sp4 250 1000 (rng_of [0, 5, 2, 3])) = Inl Uncaught"
    unfolding generate_scenic_route_def major_nodes_G4
    by (simp add: s scenic_feature_raises)
  have "\<exists>route d c r1. loop_route_build G4 sp4 (Some (0, 0)) 5000 (rng_of []) = (Inr (route, d, c), r1) \<and>
      map (node_xy G4) route = map Some (coordinates loop_f4) \<and> walk G4 route"
    using feature_coordinates_follow_route [OF valid_sp4,
        of 250 1000 "rng_of []" loop_f4 "Some (0, 0)" 5000 "rng_of []"] loop_route_G4
    by blast
  then have "map (node_xy G4) [10, 20, 30, 40, 10] = map Some (coordinates loop_f4) \<and>
      walk G4 [10, 20, 30, 40, 10]"
    unfolding loop_build_G4 by simp
  then show ?thesis using u by (simp only: valid_sp4 loop_route_G4 simp_thms)
qed

text \<open>
  C9. For every feature a generator returns (the scenic generator returns none) the
  distance in miles is the distance in kilometres times 1000 and divided by 1609.34, in
  real arithmetic; the properties that the scenic generator assembles satisfy the same
  equation.
\<close>

theorem distance_miles_from_km:
  "fst (generate_scenic_route G sp mn mx r) \<noteq> Inr f
   \<and> (generate_loop_route G sp cp radius r = (Inr f, r') \<longrightarrow>
        distance_miles f = distance_km f * 1000 / 1609.34)
   \<and> distance_miles (scenic_properties route_line route_edges best_distance n) =
       distance_km (scenic_properties route_line route_edges best_distance n) * 1000 / 1609.34"
proof (intro conjI impI)
  show "fst (generate_scenic_route G sp mn mx r) \<noteq> Inr f" by (rule scenic_route_no_feature)
next
  assume "generate_loop_route G sp cp radius r = (Inr f, r')"
  then obtain route d c r1 where "loop_feature G route d c r1 = (Inr f, r')"
    by (rule generate_loop_route_cases)
  then show "distance_miles f = distance_km f * 1000 / 1609.34"
    by (rule loop_feature_cases) simp
next
  show "distance_miles (scenic_properties route_line route_edges best_distance n) =
       distance_km (scenic_properties route_line route_edges best_distance n) * 1000 / 1609.34"
    by (simp add: scenic_properties_def)
qed

text \<open>
  The theorem of C9 at the feature of the loop on the ring.
\<close>

theorem distance_miles_from_km_witness:
  "generate_loop_route G4 sp4 (Some (0, 0)) 5000 (rng_of []) = (Inr loop_f4, rng_of []) \<and>
   distance_km loop_f4 = 200 / 1000 \<and>
   distance_miles loop_f4 = distance_km loop_f4 * 1000 / 1609.34"
proof -
  have "distance_miles loop_f4 = distance_km loop_f4 * 1000 / 1609.34"
    using distance_miles_from_km [of G4 sp4 250 1000 "rng_of []" loop_f4 "Some (0, 0)" 5000 "rng_of []"]
      loop_route_G4 by blast
  moreover have "distance_km loop_f4 = 200 / 1000" by (simp add: loop_f4_def)
  ultimately show ?thesis by (simp only: loop_route_G4 simp_thms)
qed

lemma road_names_fold:
  "distinct s \<Longrightarrow>
   distinct (fold (\<lambda>edge_attrs s.
             case name edge_attrs of
               Some (Str n) \<Rightarrow> set_add n s
             | Some (Strs ns) \<Rightarrow> set_update ns s
             | None \<Rightarrow> s) es s)
   \<and> set (fold (\<lambda>edge_attrs s.
             case name edge_attrs of
               Some (Str n) \<Rightarrow> set_add n s
             | Some (Strs ns) \<Rightarrow> set_update ns s
             | None \<Rightarrow> s) es s) = set s \<union> (\<Union>e \<in> set es. edge_names e)"
proof (induction es arbitrary: s)
  case Nil
  then show ?case by simp
next
  case (Cons e es)
  let ?s' = "case name e of Some (Str n) \<Rightarrow> set_add n s | Some (Strs ns) \<Rightarrow> set_update ns s | None \<Rightarrow> s"
  have d: "distinct ?s'" and st: "set ?s' = set s \<union> edge_names e"
    using Cons.prems set_add_props [of s] set_update_props [of s]
    by (auto simp: edge_names_def split: option.splits attr.splits)
  from Cons.IH [OF d] st show ?case by auto
qed

lemma road_names_props:
  "distinct (road_names es)" "set (road_names es) = (\<Union>e \<in> set es. edge_names e)"
  using road_names_fold [of "[]" es] by (simp_all add: road_names_def)

text \<open>
  C8, as amended. A feature of the loop generator has no list of roads. The list of
  roads that the scenic generator assembles from the attributes of a route's edges holds
  at most ten names, all distinct, each the name of one of those edges.
\<close>

theorem roads_of_features:
  "(generate_loop_route G sp cp radius r = (Inr f, r') \<longrightarrow> roads f = None)
   \<and> (\<exists>rs. roads (scenic_properties route_line route_edges best_distance n) = Some rs \<and>
         length rs \<le> 10 \<and> distinct rs \<and> set rs \<subseteq> (\<Union>e \<in> set route_edges. edge_names e))"
proof (intro conjI impI)
  assume "generate_loop_route G sp cp radius r = (Inr f, r')"
  then obtain route d c r1 where "loop_feature G route d c r1 = (Inr f, r')"
    by (rule generate_loop_route_cases)
  then show "roads f = None" by (rule loop_feature_cases)
next
  have "distinct (take 10 (road_names route_edges))" by (simp add: road_names_props)
  moreover have "set (take 10 (road_names route_edges)) \<subseteq> (\<Union>e \<in> set route_edges. edge_names e)"
    using set_take_subset [of 10 "road_names route_edges"] by (simp add: road_names_props)
  ultimately show "\<exists>rs. roads (scenic_properties route_line route_edges best_distance n) = Some rs \<and>
         length rs \<le> 10 \<and> distinct rs \<and> set rs \<subseteq> (\<Union>e \<in> set route_edges. edge_names e)"
    by (simp add: scenic_properties_def)
qed

lemma road_names_eleven:
  "road_names [e_named] = [''a'', ''b'', ''c'', ''d'', ''e'', ''f'', ''g'', ''h'', ''i'', ''j'', ''k'']"
  by (simp add: road_names_def e_named_def set_update_def set_add_def)

text \<open>
  The theorem of C8 at the feature of the loop on the ring and at an edge with eleven
  names, of which the list keeps ten.
\<close>

theorem roads_of_features_witness:
  "generate_loop_route G4 sp4 (Some (0, 0)) 5000 (rng_of []) = (Inr loop_f4, rng_of []) \<and>
   roads loop_f4 = None \<and>
   length (road_names [e_named]) = 11 \<and>
   roads (scenic_properties [] [e_named] 0 1000) =
     Some [''a'', ''b'', ''c'', ''d'', ''e'', ''f'', ''g'', ''h'', ''i'', ''j''] \<and>
   (\<exists>rs. roads (scenic_properties [] [e_named] 0 1000) = Some rs \<and> length rs \<le> 10)"
proof -
  have l: "roads loop_f4 = None"
    using roads_of_features [of G4 sp4 "Some (0, 0)" 5000 "rng_of []" loop_f4 "rng_of []"]
      loop_route_G4 by blast
  have c: "\<exists>rs. roads (scenic_properties [] [e_named] 0 1000) = Some rs \<and> length rs \<le> 10"
    using roads_of_features [of G4 sp4 "Some (0, 0)" 5000 "rng_of []" loop_f4 "rng_of []" "[]"
        "[e_named]" 0 1000]
    by blast
  have e: "roads (scenic_properties [] [e_named] 0 1000) =
     Some [''a'', ''b'', ''c'', ''d'', ''e'', ''f'', ''g'', ''h'', ''i'', ''j'']"
    by (simp add: scenic_properties_def road_names_eleven)
  have n: "length (road_names [e_named]) = 11" by (simp add: road_names_eleven)
  show ?thesis using c by (simp only: loop_route_G4 l e n simp_thms)
qed

text \<open>
  C8 as stated fails: the feature of the loop on the ring has no list of roads.
\<close>

theorem loop_feature_has_no_roads:
  "generate_loop_route G4 sp4 (Some (0, 0)) 5000 (rng_of []) = (Inr loop_f4, rng_of []) \<and>
   roads loop_f4 = None"
  by (simp add: loop_route_G4) (simp add: loop_f4_def)

section \<open>Properties of the collection generator\<close>

lemma scenic_search_G5:
  "scenic_route_search G5 sp4 [10, 20, 30, 40] 10000 40000 (rng_of [0, 5]) =
     (Inr ([10, 20], 20000), rng_of [])"
  by (simp add: scenic_route_search_def scenic_trials_numeral choice_rng_of sp4_def G5_def
      get_edge_data_def e4_def)

lemma scenic_feature_G5:
  "scenic_feature G5 [10, 20] 20000 (rng_of []) = (Inl Uncaught, rng_of [])"
  by (simp add: scenic_feature_def G5_def node_xy_def line_string_def)

lemma scenic_route_G5:
  "generate_scenic_route G5 sp4 10000 40000 (rng_of [0, 5]) = (Inl Uncaught, rng_of [])"
  unfolding generate_scenic_route_def major_nodes_G5
  by (simp add: scenic_search_G5 scenic_feature_G5)

lemma attempt_G5: "attempt G5 sp4 0 (rng_of [0, 0, 0, 5]) = (Inl Uncaught, rng_of [])"
  by (simp add: attempt_def randint_def rtl_rng_of rng_of_0 scenic_route_G5)

text \<open>
  C3, evaluated at the failing input: one route on the ring with roads of 20, 15, 30
  and 25 kilometres. The attempt of index 0 is a scenic search with the window from 10 to
  40 kilometres; the search finds the route from 10 to 20, of 20 kilometres. The
  specification has the feature of that route appended and no error leave the generator.
  The call of line 139 raises, and the exception leaves \<^verbatim>\<open>generate_multiple_routes\<close>:
  no collection is returned.
\<close>

theorem collection_raises_on_scenic_success:
  "scenic_route_search G5 sp4 [10, 20, 30, 40] 10000 40000 (rng_of [0, 5]) =
     (Inr ([10, 20], 20000), rng_of []) \<and>
   attempt G5 sp4 0 (rng_of [0, 0, 0, 5]) = (Inl Uncaught, rng_of []) \<and>
   generate_multiple_routes G5 sp4 1 (rng_of [0, 0, 0, 5]) = (Inl Uncaught, rng_of [])"
proof -
  have "[0 ..< nat 1] = [0]" by simp
  then have "generate_multiple_routes G5 sp4 1 (rng_of [0, 0, 0, 5]) = (Inl Uncaught, rng_of [])"
    by (simp add: generate_multiple_routes_def attempt_G5)
  then show ?thesis by (simp only: scenic_search_G5 attempt_G5 simp_thms)
qed

end
